theory Spec2Isabelle
  imports Main "HOL-Library.Word"
begin

section \<open>Data model of \<open>config/config.go\<close>\<close>

text \<open>
  Modelled from the spec: the type \<open>ComponentID\<close> is declared outside \<open>config.go\<close>; the
  spec describes it as an opaque identifier compared by exact string equality, which is
  used both as a registry key and as a cross-reference value.
\<close>

type_synonym ComponentID = string

text \<open>
  Modelled from the spec: the component configuration interfaces (receiver, exporter,
  processor, extension) are declared outside \<open>config.go\<close>. The validator consumes a single
  capability of such a value, \<open>Validate() error\<close>; a component is therefore represented by
  what its own \<open>Validate\<close> returns: \<open>None\<close> for \<open>nil\<close>, \<open>Some msg\<close> for an error.
\<close>

datatype component = Component (own_Validate: "string option")

text \<open>
  Modelled from the spec: the registries \<open>Receivers\<close>, \<open>Exporters\<close>, \<open>Processors\<close> and
  \<open>Extensions\<close> are Go maps from \<open>ComponentID\<close> to an interface value. A registry is an
  association list: its keys are the keys of the map, and the order of the list is the
  order in which a \<open>range\<close> loop happens to visit the map in the call at hand (Go leaves
  that order unspecified). A value is \<open>None\<close> when the stored interface value is \<open>nil\<close>.
\<close>

type_synonym registry = "(ComponentID \<times> component option) list"

type_synonym DataType = string

definition TracesDataType :: DataType where "TracesDataType = ''traces''"
definition MetricsDataType :: DataType where "MetricsDataType = ''metrics''"
definition LogsDataType :: DataType where "LogsDataType = ''logs''"

record Pipeline =
  Name :: string
  InputType :: DataType
  Pipeline_Receivers :: "ComponentID list"
  Pipeline_Processors :: "ComponentID list"
  Pipeline_Exporters :: "ComponentID list"

text \<open>
  \<open>Pipelines\<close> is \<open>map[ComponentID]*Pipeline\<close>: the value \<open>None\<close> is a \<open>nil\<close> pointer.
\<close>

type_synonym Pipelines = "(ComponentID \<times> Pipeline option) list"

record ServiceTelemetryLogs =
  Level :: "8 word"
  Development :: bool
  Encoding :: string

record ServiceTelemetry =
  Logs :: ServiceTelemetryLogs

record Service =
  Telemetry :: ServiceTelemetry
  Service_Extensions :: "ComponentID list"
  Pipelines :: Pipelines

record Config =
  Receivers :: registry
  Exporters :: registry
  Processors :: registry
  Extensions :: registry
  Service :: Service

section \<open>Errors and outcomes\<close>

text \<open>
  One constructor for each error value that \<open>config.go\<close> builds: the three package-level
  errors and the \<open>fmt.Errorf\<close> messages, each with the arguments that are formatted into
  it. \<open>InvalidComponentConfig kind id cause\<close> is the message
  \<open>kind "id" has invalid configuration: cause\<close>.
\<close>

datatype config_error =
    MissingReceivers
  | MissingExporters
  | MissingServicePipelines
  | InvalidComponentConfig string ComponentID string
  | InvalidTelemetryEncoding string
  | UnknownExtensionReference ComponentID
  | EmptyPipelineReceivers string
  | UnknownReceiverReference string ComponentID
  | UnknownProcessorReference string ComponentID
  | EmptyPipelineExporters string
  | UnknownExporterReference string ComponentID

text \<open>
  What a call does: it returns \<open>nil\<close>, it returns an error, or it panics with a nil
  dereference (a method call on a \<open>nil\<close> interface value, a field read through a \<open>nil\<close>
  \<open>*Pipeline\<close>).
\<close>

datatype outcome = Success | Failure config_error | NilPanic

section \<open>The validator\<close>

text \<open>\<open>ServiceTelemetryLogs.validate\<close> and \<open>ServiceTelemetry.validate\<close>.\<close>

definition validate_Logs :: "ServiceTelemetryLogs \<Rightarrow> outcome" where
  "validate_Logs srvTL =
     (if Encoding srvTL \<noteq> ''json'' \<and> Encoding srvTL \<noteq> ''console''
      then Failure (InvalidTelemetryEncoding (Encoding srvTL))
      else Success)"

definition validate_Telemetry :: "ServiceTelemetry \<Rightarrow> outcome" where
  "validate_Telemetry srvT = validate_Logs (Logs srvT)"

text \<open>
  The index expression \<open>m[ref]\<close> on a registry: the stored value, or the zero value \<open>nil\<close>
  when the key is absent.
\<close>

definition index :: "registry \<Rightarrow> ComponentID \<Rightarrow> component option" where
  "index m ref = (case map_of m ref of None \<Rightarrow> None | Some v \<Rightarrow> v)"

text \<open>
  The loops \<open>for k, c := range registry { if err := c.Validate(); err != nil { return ... } }\<close>
  of \<open>Config.Validate\<close>; \<open>kind\<close> is the word that starts the message.
\<close>

fun validateComponents :: "string \<Rightarrow> registry \<Rightarrow> outcome" where
  "validateComponents kind [] = Success"
| "validateComponents kind ((k, None) # rest) = NilPanic"
| "validateComponents kind ((k, Some c) # rest) =
     (case own_Validate c of
        Some err \<Rightarrow> Failure (InvalidComponentConfig kind k err)
      | None \<Rightarrow> validateComponents kind rest)"

text \<open>
  The loops \<open>for _, ref := range refs { if registry[ref] == nil { return ... } }\<close> of
  \<open>Config.validateService\<close>; \<open>mk\<close> builds the error from the reference.
\<close>

fun checkRefs :: "(ComponentID \<Rightarrow> config_error) \<Rightarrow> registry \<Rightarrow> ComponentID list \<Rightarrow> outcome" where
  "checkRefs mk m [] = Success"
| "checkRefs mk m (ref # refs) =
     (if index m ref = None then Failure (mk ref) else checkRefs mk m refs)"

text \<open>The body of the loop over \<open>cfg.Service.Pipelines\<close>, for one non-nil pipeline.\<close>

definition validatePipeline :: "Config \<Rightarrow> Pipeline \<Rightarrow> outcome" where
  "validatePipeline cfg pipeline =
     (if Pipeline_Receivers pipeline = []
      then Failure (EmptyPipelineReceivers (Name pipeline))
      else case checkRefs (UnknownReceiverReference (Name pipeline)) (Receivers cfg)
                  (Pipeline_Receivers pipeline) of
        Success \<Rightarrow>
          (case checkRefs (UnknownProcessorReference (Name pipeline)) (Processors cfg)
                  (Pipeline_Processors pipeline) of
             Success \<Rightarrow>
               (if Pipeline_Exporters pipeline = []
                then Failure (EmptyPipelineExporters (Name pipeline))
                else checkRefs (UnknownExporterReference (Name pipeline)) (Exporters cfg)
                       (Pipeline_Exporters pipeline))
           | r \<Rightarrow> r)
      | r \<Rightarrow> r)"

fun validatePipelines :: "Config \<Rightarrow> Pipelines \<Rightarrow> outcome" where
  "validatePipelines cfg [] = Success"
| "validatePipelines cfg ((k, None) # rest) = NilPanic"
| "validatePipelines cfg ((k, Some pipeline) # rest) =
     (case validatePipeline cfg pipeline of
        Success \<Rightarrow> validatePipelines cfg rest
      | r \<Rightarrow> r)"

definition validateService :: "Config \<Rightarrow> outcome" where
  "validateService cfg =
     (case validate_Telemetry (Telemetry (Service cfg)) of
        Success \<Rightarrow>
          (case checkRefs UnknownExtensionReference (Extensions cfg)
                  (Service_Extensions (Service cfg)) of
             Success \<Rightarrow>
               (if Pipelines (Service cfg) = []
                then Failure MissingServicePipelines
                else validatePipelines cfg (Pipelines (Service cfg)))
           | r \<Rightarrow> r)
      | r \<Rightarrow> r)"

definition Validate :: "Config \<Rightarrow> outcome" where
  "Validate cfg =
     (if Receivers cfg = [] then Failure MissingReceivers
      else case validateComponents ''receiver'' (Receivers cfg) of
        Success \<Rightarrow>
          (if Exporters cfg = [] then Failure MissingExporters
           else case validateComponents ''exporter'' (Exporters cfg) of
             Success \<Rightarrow>
               (case validateComponents ''processor'' (Processors cfg) of
                  Success \<Rightarrow>
                    (case validateComponents ''extension'' (Extensions cfg) of
                       Success \<Rightarrow> validateService cfg
                     | r \<Rightarrow> r)
                | r \<Rightarrow> r)
           | r \<Rightarrow> r)
      | r \<Rightarrow> r)"

section \<open>The rules of the specification\<close>

text \<open>
  A component configuration's own \<open>Validate\<close> returns \<open>nil\<close>. A \<open>nil\<close> interface value has
  no \<open>Validate\<close> to return anything: the call panics.
\<close>

definition returns_nil :: "component option \<Rightarrow> bool" where
  "returns_nil v = (case v of None \<Rightarrow> False | Some c \<Rightarrow> own_Validate c = None)"

text \<open>A reference resolves in a registry when it is one of the registry's keys.\<close>

definition resolves_in :: "registry \<Rightarrow> ComponentID \<Rightarrow> bool" where
  "resolves_in m ref \<longleftrightarrow> ref \<in> fst ` set m"

text \<open>
  The rule for one pipeline, in the specification's words: a non-empty receivers list
  whose IDs all resolve in \<open>Receivers\<close>, processor IDs that all resolve in \<open>Processors\<close>, and
  a non-empty exporters list whose IDs all resolve in \<open>Exporters\<close>. A \<open>nil\<close> entry of the
  pipelines map has no lists at all.
\<close>

definition spec_pipeline_ok :: "Config \<Rightarrow> Pipeline option \<Rightarrow> bool" where
  "spec_pipeline_ok cfg p =
     (case p of
        None \<Rightarrow> False
      | Some pipeline \<Rightarrow>
          Pipeline_Receivers pipeline \<noteq> [] \<and>
          (\<forall>ref \<in> set (Pipeline_Receivers pipeline). resolves_in (Receivers cfg) ref) \<and>
          (\<forall>ref \<in> set (Pipeline_Processors pipeline). resolves_in (Processors cfg) ref) \<and>
          Pipeline_Exporters pipeline \<noteq> [] \<and>
          (\<forall>ref \<in> set (Pipeline_Exporters pipeline). resolves_in (Exporters cfg) ref))"

text \<open>The invariant set of the specification: all of it must hold for a valid Config.\<close>

definition spec_valid :: "Config \<Rightarrow> bool" where
  "spec_valid cfg \<longleftrightarrow>
     Receivers cfg \<noteq> [] \<and>
     (\<forall>v \<in> snd ` set (Receivers cfg). returns_nil v) \<and>
     (\<forall>v \<in> snd ` set (Exporters cfg). returns_nil v) \<and>
     (\<forall>v \<in> snd ` set (Processors cfg). returns_nil v) \<and>
     (\<forall>v \<in> snd ` set (Extensions cfg). returns_nil v) \<and>
     Exporters cfg \<noteq> [] \<and>
     (Encoding (Logs (Telemetry (Service cfg))) = ''json'' \<or>
      Encoding (Logs (Telemetry (Service cfg))) = ''console'') \<and>
     (\<forall>ref \<in> set (Service_Extensions (Service cfg)). resolves_in (Extensions cfg) ref) \<and>
     Pipelines (Service cfg) \<noteq> [] \<and>
     (\<forall>p \<in> snd ` set (Pipelines (Service cfg)). spec_pipeline_ok cfg p)"

text \<open>
  Two association lists that stand for the same Go map: the keys of each are distinct and
  the two hold the same entries, in whatever order.
\<close>

definition same_map :: "('k \<times> 'v) list \<Rightarrow> ('k \<times> 'v) list \<Rightarrow> bool" where
  "same_map xs ys \<longleftrightarrow> distinct (map fst xs) \<and> distinct (map fst ys) \<and> set xs = set ys"


text \<open>
  A reference list with one more copy of \<open>x\<close>, put at position \<open>n\<close>.
\<close>

definition insert_copy :: "nat \<Rightarrow> 'a \<Rightarrow> 'a list \<Rightarrow> 'a list" where
  "insert_copy n x xs = take n xs @ x # drop n xs"

text \<open>A Config with another list of service extensions, or other pipelines.\<close>

definition with_Service_Extensions :: "Config \<Rightarrow> ComponentID list \<Rightarrow> Config" where
  "with_Service_Extensions cfg refs = cfg\<lparr>Service := (Service cfg)\<lparr>Service_Extensions := refs\<rparr>\<rparr>"

definition with_Pipelines :: "Config \<Rightarrow> Pipelines \<Rightarrow> Config" where
  "with_Pipelines cfg ps = cfg\<lparr>Service := (Service cfg)\<lparr>Pipelines := ps\<rparr>\<rparr>"

section \<open>Concrete configurations\<close>

definition valid_component :: "component option" where
  "valid_component = Some (Component None)"

definition invalid_component :: "component option" where
  "invalid_component = Some (Component (Some ''bad endpoint''))"

definition telemetry :: "string \<Rightarrow> ServiceTelemetry" where
  "telemetry enc = \<lparr>Logs = \<lparr>Level = 0, Development = False, Encoding = enc\<rparr>\<rparr>"

definition pipeline :: "string \<Rightarrow> ComponentID list \<Rightarrow> ComponentID list \<Rightarrow> ComponentID list \<Rightarrow> Pipeline" where
  "pipeline n rs ps es =
     \<lparr>Name = n, InputType = TracesDataType, Pipeline_Receivers = rs,
      Pipeline_Processors = ps, Pipeline_Exporters = es\<rparr>"

text \<open>End-to-end scenario A, with a telemetry encoding and valid component configurations.\<close>

definition scenario_A :: Config where
  "scenario_A =
     \<lparr>Receivers = [(''r1'', valid_component)],
      Exporters = [(''e1'', valid_component)],
      Processors = [],
      Extensions = [],
      Service = \<lparr>Telemetry = telemetry ''json'', Service_Extensions = [],
                 Pipelines = [(''p1'', Some (pipeline ''p1'' [''r1''] [] [''e1'']))]\<rparr>\<rparr>"

text \<open>End-to-end scenario C: no receivers, everything else populated.\<close>

definition scenario_C :: Config where
  "scenario_C =
     \<lparr>Receivers = [],
      Exporters = [(''e1'', valid_component)],
      Processors = [(''b1'', valid_component)],
      Extensions = [(''x1'', valid_component)],
      Service = \<lparr>Telemetry = telemetry ''json'', Service_Extensions = [''x1''],
                 Pipelines = [(''p1'', Some (pipeline ''p1'' [''r1''] [''b1''] [''e1'']))]\<rparr>\<rparr>"

text \<open>No exporters, and one receiver whose own \<open>Validate\<close> fails or passes.\<close>

definition invalid_receiver_no_exporters :: Config where
  "invalid_receiver_no_exporters =
     \<lparr>Receivers = [(''r1'', invalid_component)],
      Exporters = [],
      Processors = [],
      Extensions = [],
      Service = \<lparr>Telemetry = telemetry ''json'', Service_Extensions = [],
                 Pipelines = [(''p1'', Some (pipeline ''p1'' [''r1''] [] [''e1'']))]\<rparr>\<rparr>"

definition valid_receiver_no_exporters :: Config where
  "valid_receiver_no_exporters =
     \<lparr>Receivers = [(''r1'', valid_component)],
      Exporters = [],
      Processors = [],
      Extensions = [],
      Service = \<lparr>Telemetry = telemetry ''json'', Service_Extensions = [],
                 Pipelines = [(''p1'', Some (pipeline ''p1'' [''r1''] [] [''e1'']))]\<rparr>\<rparr>"

text \<open>
  No pipelines: once with the zero value of \<open>Service\<close> (the empty encoding), once with a
  valid telemetry section and a resolved extension.
\<close>

definition empty_service :: Config where
  "empty_service =
     \<lparr>Receivers = [(''r1'', valid_component)],
      Exporters = [(''e1'', valid_component)],
      Processors = [],
      Extensions = [],
      Service = \<lparr>Telemetry = telemetry '''', Service_Extensions = [], Pipelines = []\<rparr>\<rparr>"

definition no_pipelines :: Config where
  "no_pipelines =
     \<lparr>Receivers = [(''r1'', valid_component)],
      Exporters = [(''e1'', valid_component)],
      Processors = [],
      Extensions = [(''x1'', valid_component)],
      Service = \<lparr>Telemetry = telemetry ''console'', Service_Extensions = [''x1''],
                 Pipelines = []\<rparr>\<rparr>"

text \<open>One pipeline whose references are all unknown, with two unknown receivers.\<close>

definition two_unknown_receivers :: Config where
  "two_unknown_receivers =
     \<lparr>Receivers = [(''r1'', valid_component)],
      Exporters = [(''e1'', valid_component)],
      Processors = [],
      Extensions = [],
      Service = \<lparr>Telemetry = telemetry ''json'', Service_Extensions = [],
                 Pipelines = [(''p1'', Some (pipeline ''p1'' [''rX'', ''rY''] [''bX''] [''eX'']))]\<rparr>\<rparr>"






text \<open>
  Registries in which the keys \<open>r2\<close>, \<open>e2\<close>, \<open>b1\<close> and \<open>x1\<close> are present and hold \<open>nil\<close>.
\<close>

definition nil_entries :: Config where
  "nil_entries =
     \<lparr>Receivers = [(''r1'', valid_component), (''r2'', None)],
      Exporters = [(''e1'', valid_component), (''e2'', None)],
      Processors = [(''b1'', None)],
      Extensions = [(''x1'', None)],
      Service = \<lparr>Telemetry = telemetry ''json'', Service_Extensions = [''x1''],
                 Pipelines = [(''p1'', Some (pipeline ''p1'' [''r1'', ''r2''] [''b1''] [''e1'', ''e2'']))]\<rparr>\<rparr>"

text \<open>A valid Config with an extension, a processor and two pipelines.\<close>

definition full_config :: Config where
  "full_config =
     \<lparr>Receivers = [(''r1'', valid_component)],
      Exporters = [(''e1'', valid_component)],
      Processors = [(''b1'', valid_component)],
      Extensions = [(''x1'', valid_component)],
      Service = \<lparr>Telemetry = telemetry ''json'', Service_Extensions = [''x1''],
                 Pipelines = [(''p0'', Some (pipeline ''p0'' [''r1''] [] [''e1''])),
                              (''p1'', Some (pipeline ''p1'' [''r1''] [''b1''] [''e1'']))]\<rparr>\<rparr>"

text \<open>
  A Config in which every check before the pipelines passes and the valid pipeline \<open>p0\<close>
  is visited first; the pipeline stored under \<open>p1\<close> is the parameter.
\<close>

definition reached_pipeline :: "Pipeline \<Rightarrow> Config" where
  "reached_pipeline P =
     \<lparr>Receivers = [(''r1'', valid_component)],
      Exporters = [(''e1'', valid_component)],
      Processors = [(''b1'', valid_component)],
      Extensions = [],
      Service = \<lparr>Telemetry = telemetry ''json'', Service_Extensions = [],
                 Pipelines = [(''p0'', Some (pipeline ''p0'' [''r1''] [] [''e1''])),
                              (''p1'', Some P)]\<rparr>\<rparr>"


text \<open>
  What the loop over a registry does when it stops at an entry: it returns the error of
  that kind of component, or it panics on a \<open>nil\<close> value. Likewise for the loop over the
  pipelines: one of the five pipeline errors, or a panic on a \<open>nil\<close> pipeline.
\<close>

fun component_loop_outcome :: "string \<Rightarrow> outcome \<Rightarrow> bool" where
  "component_loop_outcome kind NilPanic = True"
| "component_loop_outcome kind (Failure (InvalidComponentConfig kind' k err)) = (kind' = kind)"
| "component_loop_outcome kind r = False"

fun pipelines_loop_outcome :: "outcome \<Rightarrow> bool" where
  "pipelines_loop_outcome NilPanic = True"
| "pipelines_loop_outcome (Failure (EmptyPipelineReceivers n)) = True"
| "pipelines_loop_outcome (Failure (UnknownReceiverReference n ref)) = True"
| "pipelines_loop_outcome (Failure (UnknownProcessorReference n ref)) = True"
| "pipelines_loop_outcome (Failure (EmptyPipelineExporters n)) = True"
| "pipelines_loop_outcome (Failure (UnknownExporterReference n ref)) = True"
| "pipelines_loop_outcome r = False"

text \<open>
  Two results that are equal, or that both come from the loop over the same map.
\<close>

definition same_but_for_ties :: "outcome \<Rightarrow> outcome \<Rightarrow> bool" where
  "same_but_for_ties r1 r2 \<longleftrightarrow>
     r1 = r2 \<or>
     (\<exists>kind \<in> set [''receiver'', ''exporter'', ''processor'', ''extension''].
        component_loop_outcome kind r1 \<and> component_loop_outcome kind r2) \<or>
     (pipelines_loop_outcome r1 \<and> pipelines_loop_outcome r2)"







text \<open>
  A pipeline with one more copy of \<open>x\<close> at position \<open>n\<close> of one of its lists.
\<close>

definition copy_in_Receivers :: "nat \<Rightarrow> ComponentID \<Rightarrow> Pipeline \<Rightarrow> Pipeline" where
  "copy_in_Receivers n x P = P\<lparr>Pipeline_Receivers := insert_copy n x (Pipeline_Receivers P)\<rparr>"

definition copy_in_Processors :: "nat \<Rightarrow> ComponentID \<Rightarrow> Pipeline \<Rightarrow> Pipeline" where
  "copy_in_Processors n x P = P\<lparr>Pipeline_Processors := insert_copy n x (Pipeline_Processors P)\<rparr>"

definition copy_in_Exporters :: "nat \<Rightarrow> ComponentID \<Rightarrow> Pipeline \<Rightarrow> Pipeline" where
  "copy_in_Exporters n x P = P\<lparr>Pipeline_Exporters := insert_copy n x (Pipeline_Exporters P)\<rparr>"

text \<open>
  The two results are equal, or both are the error built by \<open>mk\<close>: the first names some
  reference of the list \<open>xs\<close> and the second names \<open>x\<close> instead.
\<close>

definition same_or_names_copy ::
  "(ComponentID \<Rightarrow> config_error) \<Rightarrow> ComponentID list \<Rightarrow> ComponentID \<Rightarrow> outcome \<Rightarrow> outcome \<Rightarrow> bool"
where
  "same_or_names_copy mk xs x r r' \<longleftrightarrow>
     r' = r \<or> (\<exists>y \<in> set xs. r = Failure (mk y) \<and> r' = Failure (mk x))"

text \<open>A Config whose service lists two extensions that are not configured.\<close>

definition dangling_extensions :: Config where
  "dangling_extensions =
     \<lparr>Receivers = [(''r1'', valid_component)],
      Exporters = [(''e1'', valid_component)],
      Processors = [],
      Extensions = [],
      Service = \<lparr>Telemetry = telemetry ''json'', Service_Extensions = [''xA'', ''xB''],
                 Pipelines = [(''p1'', Some (pipeline ''p1'' [''r1''] [] [''e1'']))]\<rparr>\<rparr>"

section \<open>Properties of the loops\<close>

lemma validateComponents_Success_iff:
  "validateComponents kind m = Success \<longleftrightarrow> (\<forall>v \<in> snd ` set m. returns_nil v)"
  by (induction kind m rule: validateComponents.induct)
     (auto simp: returns_nil_def split: option.splits)

lemma index_None_iff:
  "(\<forall>v \<in> snd ` set m. returns_nil v) \<Longrightarrow> index m ref = None \<longleftrightarrow> \<not> resolves_in m ref"
proof (induction m)
  case Nil
  then show ?case by (simp add: index_def resolves_in_def)
next
  case (Cons a m)
  obtain k v where a: "a = (k, v)" by (cases a)
  from Cons.prems a obtain c where v: "v = Some c"
    by (cases v) (auto simp: returns_nil_def)
  from Cons show ?case
    by (auto simp: a v index_def resolves_in_def)
qed

lemma checkRefs_Success_iff:
  "checkRefs mk m refs = Success \<longleftrightarrow> (\<forall>ref \<in> set refs. index m ref \<noteq> None)"
  by (induction refs) auto

lemma checkRefs_not_NilPanic [simp]: "checkRefs mk m refs \<noteq> NilPanic"
  by (induction refs) auto

lemma checkRefs_FailureD:
  "checkRefs mk m refs = Failure e \<Longrightarrow> \<exists>ref \<in> set refs. index m ref = None"
  by (induction refs) (auto split: if_splits)

lemma checkRefs_first:
  "\<forall>r \<in> set pre. index m r \<noteq> None \<Longrightarrow> index m ref = None \<Longrightarrow>
   checkRefs mk m (pre @ ref # post) = Failure (mk ref)"
  by (induction pre) auto

lemma checkRefs_skip:
  "index m x \<noteq> None \<Longrightarrow> checkRefs mk m (pre @ x # post) = checkRefs mk m (pre @ post)"
  by (induction pre) auto

lemma checkRefs_repeat:
  "x \<in> set pre \<Longrightarrow> checkRefs mk m (pre @ x # post) = checkRefs mk m (pre @ post)"
proof (induction pre)
  case Nil
  then show ?case by simp
next
  case (Cons a pre)
  show ?case
  proof (cases "index m a = None")
    case True
    then show ?thesis by simp
  next
    case False
    show ?thesis
    proof (cases "x = a")
      case True
      with False have "checkRefs mk m (pre @ x # post) = checkRefs mk m (pre @ post)"
        by (intro checkRefs_skip) simp
      with False True show ?thesis by (simp del: not_None_eq)
    next
      case neq: False
      with Cons False show ?thesis by (simp del: not_None_eq)
    qed
  qed
qed

lemma checkRefs_insert_copy:
  assumes "x \<in> set (take n xs)"
  shows "checkRefs mk m (insert_copy n x xs) = checkRefs mk m xs"
proof -
  have "checkRefs mk m (take n xs @ x # drop n xs) = checkRefs mk m (take n xs @ drop n xs)"
    using assms by (rule checkRefs_repeat)
  then show ?thesis by (simp add: insert_copy_def)
qed

text \<open>
  A copy put anywhere in the list, also before the first occurrence, keeps the verdict of
  the loop; it may change which of several unresolved references the loop names.
\<close>

lemma checkRefs_insert_copy_verdict:
  assumes "x \<in> set xs"
  shows "checkRefs mk m (insert_copy n x xs) = Success \<longleftrightarrow> checkRefs mk m xs = Success"
proof -
  have "set (take n xs) \<union> set (drop n xs) = set xs"
    by (metis append_take_drop_id set_append)
  with assms have "set (insert_copy n x xs) = set xs"
    unfolding insert_copy_def by auto
  then show ?thesis by (simp only: checkRefs_Success_iff)
qed

lemma checkRefs_insert_copy_in_front:
  "checkRefs mk [] [''a'', ''b''] = Failure (mk ''a'') \<and>
   checkRefs mk [] (insert_copy 0 ''b'' [''a'', ''b'']) = Failure (mk ''b'')"
  by (simp add: insert_copy_def index_def)

lemma validatePipeline_Success_iff:
  "validatePipeline cfg p = Success \<longleftrightarrow>
     Pipeline_Receivers p \<noteq> [] \<and>
     (\<forall>ref \<in> set (Pipeline_Receivers p). index (Receivers cfg) ref \<noteq> None) \<and>
     (\<forall>ref \<in> set (Pipeline_Processors p). index (Processors cfg) ref \<noteq> None) \<and>
     Pipeline_Exporters p \<noteq> [] \<and>
     (\<forall>ref \<in> set (Pipeline_Exporters p). index (Exporters cfg) ref \<noteq> None)"
  by (auto simp: validatePipeline_def checkRefs_Success_iff simp del: not_None_eq
        split: outcome.splits dest: checkRefs_FailureD)

lemma validatePipelines_Success_iff:
  "validatePipelines cfg ps = Success \<longleftrightarrow>
     (\<forall>p \<in> snd ` set ps. \<exists>pl. p = Some pl \<and> validatePipeline cfg pl = Success)"
  by (induction cfg ps rule: validatePipelines.induct) (auto split: outcome.splits)

lemma validateService_Success_iff:
  "validateService cfg = Success \<longleftrightarrow>
     (Encoding (Logs (Telemetry (Service cfg))) = ''json'' \<or>
      Encoding (Logs (Telemetry (Service cfg))) = ''console'') \<and>
     (\<forall>ref \<in> set (Service_Extensions (Service cfg)). index (Extensions cfg) ref \<noteq> None) \<and>
     Pipelines (Service cfg) \<noteq> [] \<and>
     validatePipelines cfg (Pipelines (Service cfg)) = Success"
  by (auto simp: validateService_def validate_Telemetry_def validate_Logs_def
        checkRefs_Success_iff simp del: not_None_eq split: outcome.splits
        dest: checkRefs_FailureD)

lemma Validate_Success_iff:
  "Validate cfg = Success \<longleftrightarrow>
     Receivers cfg \<noteq> [] \<and> validateComponents ''receiver'' (Receivers cfg) = Success \<and>
     Exporters cfg \<noteq> [] \<and> validateComponents ''exporter'' (Exporters cfg) = Success \<and>
     validateComponents ''processor'' (Processors cfg) = Success \<and>
     validateComponents ''extension'' (Extensions cfg) = Success \<and>
     validateService cfg = Success"
  by (auto simp: Validate_def split: outcome.splits)

lemma validatePipelines_append:
  "\<forall>p \<in> snd ` set before. \<exists>pl. p = Some pl \<and> validatePipeline cfg pl = Success \<Longrightarrow>
   validatePipelines cfg (before @ rest) = validatePipelines cfg rest"
proof (induction before)
  case Nil
  then show ?case by simp
next
  case (Cons a before)
  obtain k p where a: "a = (k, p)" by (cases a)
  from Cons.prems a obtain pl where p: "p = Some pl" "validatePipeline cfg pl = Success"
    by auto
  from Cons show ?case by (simp add: a p)
qed

lemma validatePipeline_spec:
  assumes "\<forall>v \<in> snd ` set (Receivers cfg). returns_nil v"
    and "\<forall>v \<in> snd ` set (Exporters cfg). returns_nil v"
    and "\<forall>v \<in> snd ` set (Processors cfg). returns_nil v"
  shows "validatePipeline cfg pl = Success \<longleftrightarrow> spec_pipeline_ok cfg (Some pl)"
  using assms
  by (simp add: validatePipeline_Success_iff spec_pipeline_ok_def index_None_iff
        del: not_None_eq)



lemma same_map_set: "same_map xs ys \<Longrightarrow> set xs = set ys"
  by (simp add: same_map_def)

lemma insert_copy_not_Nil [simp]: "insert_copy n x xs \<noteq> []"
  by (simp add: insert_copy_def)

lemma validatePipeline_registries:
  "Receivers c = Receivers c' \<Longrightarrow> Processors c = Processors c' \<Longrightarrow>
   Exporters c = Exporters c' \<Longrightarrow> validatePipeline c p = validatePipeline c' p"
  unfolding validatePipeline_def by (simp only:)

lemma validatePipelines_registries:
  "Receivers c = Receivers c' \<Longrightarrow> Processors c = Processors c' \<Longrightarrow>
   Exporters c = Exporters c' \<Longrightarrow> validatePipelines c ps = validatePipelines c' ps"
proof (induction c ps rule: validatePipelines.induct)
  case (3 cfg k pipeline rest)
  then show ?case
    by (simp add: validatePipeline_registries [of cfg c'] split: outcome.splits)
qed simp_all

lemma validatePipelines_replace:
  "validatePipeline cfg P' = validatePipeline cfg P \<Longrightarrow>
   validatePipelines cfg (before @ (k, Some P') # after) =
   validatePipelines cfg (before @ (k, Some P) # after)"
proof (induction before)
  case Nil
  then show ?case by simp
next
  case (Cons a before)
  obtain k' p where a: "a = (k', p)" by (cases a)
  from Cons show ?case by (cases p) (simp_all add: a split: outcome.splits)
qed

lemma Validate_with_Pipelines:
  assumes "Pipelines (Service cfg) = before @ (k, Some P) # after"
    and "validatePipeline cfg P' = validatePipeline cfg P"
  shows "Validate (with_Pipelines cfg (before @ (k, Some P') # after)) = Validate cfg"
proof -
  let ?ps = "before @ (k, Some P') # after"
  have "validatePipelines (with_Pipelines cfg ?ps) ?ps = validatePipelines cfg ?ps"
    by (rule validatePipelines_registries) (simp_all add: with_Pipelines_def)
  also have "\<dots> = validatePipelines cfg (Pipelines (Service cfg))"
    unfolding assms(1) using assms(2) by (rule validatePipelines_replace)
  finally have "validateService (with_Pipelines cfg ?ps) = validateService cfg"
    by (simp add: validateService_def with_Pipelines_def assms(1) cong: outcome.case_cong)
  then show ?thesis by (simp add: Validate_def with_Pipelines_def cong: outcome.case_cong)
qed

lemma Validate_with_Service_Extensions:
  assumes "checkRefs UnknownExtensionReference (Extensions cfg) refs =
    checkRefs UnknownExtensionReference (Extensions cfg) (Service_Extensions (Service cfg))"
  shows "Validate (with_Service_Extensions cfg refs) = Validate cfg"
proof -
  have "validatePipelines (with_Service_Extensions cfg refs) (Pipelines (Service cfg)) =
      validatePipelines cfg (Pipelines (Service cfg))"
    by (rule validatePipelines_registries) (simp_all add: with_Service_Extensions_def)
  with assms have "validateService (with_Service_Extensions cfg refs) = validateService cfg"
    by (simp add: validateService_def with_Service_Extensions_def cong: outcome.case_cong)
  then show ?thesis
    by (simp add: Validate_def with_Service_Extensions_def cong: outcome.case_cong)
qed















lemma same_but_for_ties_refl [simp]: "same_but_for_ties r r"
  by (simp add: same_but_for_ties_def)








lemma checkRefs_Failure_ex:
  "\<exists>r \<in> set refs. index m r = None \<Longrightarrow> \<exists>y \<in> set refs. checkRefs mk m refs = Failure (mk y)"
  by (induction refs) auto

lemma checkRefs_prefix:
  "\<exists>r \<in> set pre. index m r = None \<Longrightarrow> checkRefs mk m (pre @ post) = checkRefs mk m pre"
  by (induction pre) auto

lemma checkRefs_insert_copy_same:
  assumes "x \<in> set (take n xs) \<or> index m x \<noteq> None"
  shows "checkRefs mk m (insert_copy n x xs) = checkRefs mk m xs"
proof (cases "x \<in> set (take n xs)")
  case True
  then show ?thesis by (rule checkRefs_insert_copy)
next
  case False
  with assms have "index m x \<noteq> None" by simp
  then have "checkRefs mk m (take n xs @ x # drop n xs) = checkRefs mk m (take n xs @ drop n xs)"
    by (rule checkRefs_skip)
  then show ?thesis by (simp add: insert_copy_def)
qed

lemma checkRefs_insert_copy_any:
  assumes "x \<in> set xs"
  shows "same_or_names_copy mk xs x (checkRefs mk m xs) (checkRefs mk m (insert_copy n x xs))"
proof (cases "index m x = None")
  case False
  then have "checkRefs mk m (insert_copy n x xs) = checkRefs mk m xs"
    by (intro checkRefs_insert_copy_same) simp
  then show ?thesis by (simp add: same_or_names_copy_def)
next
  case True
  show ?thesis
  proof (cases "\<exists>r \<in> set (take n xs). index m r = None")
    case True
    then have "checkRefs mk m (take n xs @ x # drop n xs) = checkRefs mk m (take n xs)"
        "checkRefs mk m (take n xs @ drop n xs) = checkRefs mk m (take n xs)"
      by (rule checkRefs_prefix)+
    then show ?thesis by (simp add: same_or_names_copy_def insert_copy_def)
  next
    case False
    then have "\<forall>r \<in> set (take n xs). index m r \<noteq> None" by simp
    then have new: "checkRefs mk m (take n xs @ x # drop n xs) = Failure (mk x)"
      using True by (rule checkRefs_first)
    from assms True have "\<exists>r \<in> set xs. index m r = None" by blast
    then have "\<exists>y \<in> set xs. checkRefs mk m xs = Failure (mk y)"
      by (rule checkRefs_Failure_ex)
    with new show ?thesis by (auto simp: same_or_names_copy_def insert_copy_def)
  qed
qed

lemma same_or_names_copy_refl [simp]: "same_or_names_copy mk xs x r r"
  by (simp add: same_or_names_copy_def)

lemma same_or_names_copy_Success:
  "same_or_names_copy mk xs x r r' \<Longrightarrow> r' = Success \<longleftrightarrow> r = Success"
  by (auto simp: same_or_names_copy_def)

lemma same_or_names_copy_after:
  "same_or_names_copy mk xs x r r' \<Longrightarrow>
   same_or_names_copy mk xs x
     (case q of Success \<Rightarrow> r | Failure e \<Rightarrow> Failure e | NilPanic \<Rightarrow> NilPanic)
     (case q of Success \<Rightarrow> r' | Failure e \<Rightarrow> Failure e | NilPanic \<Rightarrow> NilPanic)"
  by (cases q) simp_all

lemma same_or_names_copy_before:
  "same_or_names_copy mk xs x r r' \<Longrightarrow>
   same_or_names_copy mk xs x
     (case r of Success \<Rightarrow> z | Failure e \<Rightarrow> Failure e | NilPanic \<Rightarrow> NilPanic)
     (case r' of Success \<Rightarrow> z | Failure e \<Rightarrow> Failure e | NilPanic \<Rightarrow> NilPanic)"
  by (auto simp: same_or_names_copy_def)

lemma validatePipeline_copy_any:
  "x \<in> set (Pipeline_Receivers P) \<Longrightarrow>
     same_or_names_copy (UnknownReceiverReference (Name P)) (Pipeline_Receivers P) x
       (validatePipeline cfg P) (validatePipeline cfg (copy_in_Receivers n x P))"
  "x \<in> set (Pipeline_Processors P) \<Longrightarrow>
     same_or_names_copy (UnknownProcessorReference (Name P)) (Pipeline_Processors P) x
       (validatePipeline cfg P) (validatePipeline cfg (copy_in_Processors n x P))"
  "x \<in> set (Pipeline_Exporters P) \<Longrightarrow>
     same_or_names_copy (UnknownExporterReference (Name P)) (Pipeline_Exporters P) x
       (validatePipeline cfg P) (validatePipeline cfg (copy_in_Exporters n x P))"
proof -
  show "same_or_names_copy (UnknownReceiverReference (Name P)) (Pipeline_Receivers P) x
       (validatePipeline cfg P) (validatePipeline cfg (copy_in_Receivers n x P))"
    if "x \<in> set (Pipeline_Receivers P)"
  proof -
    from that have ne: "Pipeline_Receivers P \<noteq> []" by auto
    from that show ?thesis
      unfolding validatePipeline_def copy_in_Receivers_def
      by (simp add: ne same_or_names_copy_before checkRefs_insert_copy_any
            cong: outcome.case_cong)
  qed
  show "same_or_names_copy (UnknownProcessorReference (Name P)) (Pipeline_Processors P) x
       (validatePipeline cfg P) (validatePipeline cfg (copy_in_Processors n x P))"
    if "x \<in> set (Pipeline_Processors P)"
    using that unfolding validatePipeline_def copy_in_Processors_def
    by (simp add: same_or_names_copy_before same_or_names_copy_after
          checkRefs_insert_copy_any cong: outcome.case_cong)
  show "same_or_names_copy (UnknownExporterReference (Name P)) (Pipeline_Exporters P) x
       (validatePipeline cfg P) (validatePipeline cfg (copy_in_Exporters n x P))"
    if "x \<in> set (Pipeline_Exporters P)"
  proof -
    from that have ne: "Pipeline_Exporters P \<noteq> []" by auto
    from that show ?thesis
      unfolding validatePipeline_def copy_in_Exporters_def
      by (simp add: ne same_or_names_copy_after checkRefs_insert_copy_any
            cong: outcome.case_cong)
  qed
qed

lemma validatePipeline_copy_same:
  "x \<in> set (Pipeline_Receivers P) \<Longrightarrow>
   x \<in> set (take n (Pipeline_Receivers P)) \<or> index (Receivers cfg) x \<noteq> None \<Longrightarrow>
     validatePipeline cfg (copy_in_Receivers n x P) = validatePipeline cfg P"
  "x \<in> set (Pipeline_Processors P) \<Longrightarrow>
   x \<in> set (take n (Pipeline_Processors P)) \<or> index (Processors cfg) x \<noteq> None \<Longrightarrow>
     validatePipeline cfg (copy_in_Processors n x P) = validatePipeline cfg P"
  "x \<in> set (Pipeline_Exporters P) \<Longrightarrow>
   x \<in> set (take n (Pipeline_Exporters P)) \<or> index (Exporters cfg) x \<noteq> None \<Longrightarrow>
     validatePipeline cfg (copy_in_Exporters n x P) = validatePipeline cfg P"
  unfolding validatePipeline_def copy_in_Receivers_def copy_in_Processors_def
    copy_in_Exporters_def
  by (auto simp: checkRefs_insert_copy_same simp del: not_None_eq cong: outcome.case_cong)

lemma validatePipelines_replace_copy:
  "same_or_names_copy mk xs x (validatePipeline cfg P) (validatePipeline cfg P') \<Longrightarrow>
   same_or_names_copy mk xs x
     (validatePipelines cfg (before @ (k, Some P) # after))
     (validatePipelines cfg (before @ (k, Some P') # after))"
proof (induction before)
  case Nil
  then show ?case by (simp add: same_or_names_copy_before)
next
  case (Cons a before)
  obtain k' p where a: "a = (k', p)" by (cases a)
  from Cons show ?case
    by (cases p) (simp_all add: a same_or_names_copy_after)
qed

lemma Validate_with_Pipelines_copy:
  assumes "Pipelines (Service cfg) = before @ (k, Some P) # after"
    and "same_or_names_copy mk xs x (validatePipeline cfg P) (validatePipeline cfg P')"
  shows "same_or_names_copy mk xs x (Validate cfg)
    (Validate (with_Pipelines cfg (before @ (k, Some P') # after)))"
proof -
  let ?ps = "before @ (k, Some P') # after"
  have "validatePipelines (with_Pipelines cfg ?ps) ?ps = validatePipelines cfg ?ps"
    by (rule validatePipelines_registries) (simp_all add: with_Pipelines_def)
  moreover from assms(2)
  have "same_or_names_copy mk xs x (validatePipelines cfg (Pipelines (Service cfg)))
      (validatePipelines cfg ?ps)"
    unfolding assms(1) by (rule validatePipelines_replace_copy)
  ultimately have "same_or_names_copy mk xs x (validateService cfg)
      (validateService (with_Pipelines cfg ?ps))"
    by (simp add: validateService_def with_Pipelines_def assms(1) same_or_names_copy_after)
  then show ?thesis
    by (simp add: Validate_def with_Pipelines_def same_or_names_copy_after)
qed

lemma Validate_with_Service_Extensions_copy:
  assumes "same_or_names_copy mk xs x
    (checkRefs UnknownExtensionReference (Extensions cfg) (Service_Extensions (Service cfg)))
    (checkRefs UnknownExtensionReference (Extensions cfg) refs)"
  shows "same_or_names_copy mk xs x (Validate cfg) (Validate (with_Service_Extensions cfg refs))"
proof -
  have "validatePipelines (with_Service_Extensions cfg refs) (Pipelines (Service cfg)) =
      validatePipelines cfg (Pipelines (Service cfg))"
    by (rule validatePipelines_registries) (simp_all add: with_Service_Extensions_def)
  with assms have "same_or_names_copy mk xs x (validateService cfg)
      (validateService (with_Service_Extensions cfg refs))"
    by (simp add: validateService_def with_Service_Extensions_def
          same_or_names_copy_after same_or_names_copy_before cong: outcome.case_cong)
  then show ?thesis
    by (simp add: Validate_def with_Service_Extensions_def same_or_names_copy_after
          cong: outcome.case_cong)
qed

section \<open>The verdict of \<open>Validate\<close>\<close>

text \<open>
  Claim C1. \<open>Validate\<close> returns \<open>nil\<close> if and only if the whole invariant set holds: the
  Receivers registry is non-empty; the own \<open>Validate\<close> of every receiver, exporter, processor
  and extension configuration returns \<open>nil\<close>; the Exporters registry is non-empty; the
  telemetry logs encoding is \<open>json\<close> or \<open>console\<close>; every reference of the service's
  extension list is a key of the Extensions registry; there is at least one pipeline; and
  every pipeline has a non-empty receivers list with keys of Receivers, processor
  references that are keys of Processors, and a non-empty exporters list with keys of
  Exporters.
\<close>

theorem Validate_succeeds_iff_spec_valid:
  "Validate cfg = Success \<longleftrightarrow> spec_valid cfg"
proof
  assume "Validate cfg = Success"
  then have c: "Receivers cfg \<noteq> []" "Exporters cfg \<noteq> []"
      "\<forall>v \<in> snd ` set (Receivers cfg). returns_nil v"
      "\<forall>v \<in> snd ` set (Exporters cfg). returns_nil v"
      "\<forall>v \<in> snd ` set (Processors cfg). returns_nil v"
      "\<forall>v \<in> snd ` set (Extensions cfg). returns_nil v"
    and s: "validateService cfg = Success"
    by (simp_all add: Validate_Success_iff validateComponents_Success_iff)
  from s c show "spec_valid cfg"
    unfolding spec_valid_def spec_pipeline_ok_def validateService_Success_iff
      validatePipelines_Success_iff validatePipeline_Success_iff
    by (auto simp: index_None_iff simp del: not_None_eq)
next
  assume v: "spec_valid cfg"
  then have c: "\<forall>v \<in> snd ` set (Receivers cfg). returns_nil v"
      "\<forall>v \<in> snd ` set (Exporters cfg). returns_nil v"
      "\<forall>v \<in> snd ` set (Processors cfg). returns_nil v"
      "\<forall>v \<in> snd ` set (Extensions cfg). returns_nil v"
    by (simp_all add: spec_valid_def)
  have "validateService cfg = Success"
    unfolding validateService_Success_iff validatePipelines_Success_iff
      validatePipeline_Success_iff
    using v c
    by (auto simp: spec_valid_def spec_pipeline_ok_def index_None_iff simp del: not_None_eq
          split: option.splits)
  with v c show "Validate cfg = Success"
    by (simp add: Validate_Success_iff validateComponents_Success_iff spec_valid_def)
qed

theorem Validate_succeeds_iff_spec_valid_witness:
  "spec_valid scenario_A \<and> Validate scenario_A = Success"
proof -
  have "spec_valid scenario_A"
    by (simp add: spec_valid_def spec_pipeline_ok_def scenario_A_def returns_nil_def
          resolves_in_def valid_component_def telemetry_def pipeline_def)
  with Validate_succeeds_iff_spec_valid [of scenario_A] show ?thesis by simp
qed






section \<open>The order of the checks\<close>

text \<open>
  Claim C2. For every Config whose Receivers registry is empty, \<open>Validate\<close> returns the
  MissingReceivers error, whatever else the Config holds: no other rule is looked at first.
\<close>

theorem empty_Receivers_MissingReceivers:
  "Receivers cfg = [] \<Longrightarrow> Validate cfg = Failure MissingReceivers"
  by (simp add: Validate_def)

theorem empty_Receivers_MissingReceivers_witness:
  "Receivers scenario_C = [] \<and> Validate scenario_C = Failure MissingReceivers"
proof -
  have e: "Receivers scenario_C = []" by (simp add: scenario_C_def)
  from e empty_Receivers_MissingReceivers [OF e] show ?thesis by simp
qed

text \<open>
  Claim C3, as stated, fails: with an empty Exporters registry and a non-empty Receivers
  registry, a receiver whose own \<open>Validate\<close> fails is reported instead, since the receivers
  are validated before the exporters are counted.
\<close>

theorem empty_Exporters_counterexample:
  "Exporters invalid_receiver_no_exporters = [] \<and>
   Receivers invalid_receiver_no_exporters \<noteq> [] \<and>
   Validate invalid_receiver_no_exporters =
     Failure (InvalidComponentConfig ''receiver'' ''r1'' ''bad endpoint'') \<and>
   Validate invalid_receiver_no_exporters \<noteq> Failure MissingExporters"
  by (simp add: invalid_receiver_no_exporters_def Validate_def invalid_component_def)

text \<open>
  Claim C3, amended. For every Config whose Exporters registry is empty, whose Receivers
  registry is non-empty and whose receiver configurations all pass their own \<open>Validate\<close>,
  \<open>Validate\<close> returns the MissingExporters error.
\<close>

theorem empty_Exporters_MissingExporters:
  assumes "Exporters cfg = []" and "Receivers cfg \<noteq> []"
    and "\<forall>v \<in> snd ` set (Receivers cfg). returns_nil v"
  shows "Validate cfg = Failure MissingExporters"
proof -
  from assms(3) have "validateComponents ''receiver'' (Receivers cfg) = Success"
    by (simp only: validateComponents_Success_iff)
  with assms(1,2) show ?thesis by (simp add: Validate_def)
qed

theorem empty_Exporters_MissingExporters_witness:
  "Exporters valid_receiver_no_exporters = [] \<and>
   Receivers valid_receiver_no_exporters \<noteq> [] \<and>
   validateComponents ''receiver'' (Receivers valid_receiver_no_exporters) = Success \<and>
   Validate valid_receiver_no_exporters = Failure MissingExporters"
proof -
  have h: "Exporters valid_receiver_no_exporters = []"
      "Receivers valid_receiver_no_exporters \<noteq> []"
      "\<forall>v \<in> snd ` set (Receivers valid_receiver_no_exporters). returns_nil v"
    by (simp_all add: valid_receiver_no_exporters_def valid_component_def returns_nil_def)
  have "validateComponents ''receiver'' (Receivers valid_receiver_no_exporters) = Success"
    by (simp add: valid_receiver_no_exporters_def valid_component_def)
  with h(1,2) empty_Exporters_MissingExporters [OF h] show ?thesis by simp
qed

text \<open>
  Claim C4, as stated, fails: with non-empty Receivers and Exporters registries and no
  pipelines, an invalid telemetry encoding is reported instead, since the telemetry (and
  the components and the extension references) are checked before the pipelines are
  counted.
\<close>

theorem empty_Pipelines_counterexample:
  "Receivers empty_service \<noteq> [] \<and> Exporters empty_service \<noteq> [] \<and>
   Pipelines (Service empty_service) = [] \<and>
   Validate empty_service = Failure (InvalidTelemetryEncoding '''') \<and>
   Validate empty_service \<noteq> Failure MissingServicePipelines"
  by (simp add: empty_service_def Validate_def validateService_def validate_Telemetry_def
        validate_Logs_def telemetry_def valid_component_def)

text \<open>
  Claim C4, amended. For every Config with non-empty Receivers and Exporters registries
  and an empty \<open>Service.Pipelines\<close> map, in which every component configuration passes its
  own \<open>Validate\<close>, the telemetry logs encoding is \<open>json\<close> or \<open>console\<close> and every service
  extension reference is a key of the Extensions registry, \<open>Validate\<close> returns the
  MissingPipelines error.
\<close>

theorem empty_Pipelines_MissingPipelines:
  assumes "Receivers cfg \<noteq> []" and "Exporters cfg \<noteq> []"
    and "Pipelines (Service cfg) = []"
    and "\<forall>v \<in> snd ` set (Receivers cfg). returns_nil v"
    and "\<forall>v \<in> snd ` set (Exporters cfg). returns_nil v"
    and "\<forall>v \<in> snd ` set (Processors cfg). returns_nil v"
    and "\<forall>v \<in> snd ` set (Extensions cfg). returns_nil v"
    and "Encoding (Logs (Telemetry (Service cfg))) = ''json'' \<or>
         Encoding (Logs (Telemetry (Service cfg))) = ''console''"
    and "\<forall>ref \<in> set (Service_Extensions (Service cfg)). resolves_in (Extensions cfg) ref"
  shows "Validate cfg = Failure MissingServicePipelines"
proof -
  have comps: "validateComponents ''receiver'' (Receivers cfg) = Success"
      "validateComponents ''exporter'' (Exporters cfg) = Success"
      "validateComponents ''processor'' (Processors cfg) = Success"
      "validateComponents ''extension'' (Extensions cfg) = Success"
    using assms(4-7) by (simp_all only: validateComponents_Success_iff)
  have tel: "validate_Telemetry (Telemetry (Service cfg)) = Success"
    using assms(8) by (auto simp: validate_Telemetry_def validate_Logs_def)
  have "\<forall>ref \<in> set (Service_Extensions (Service cfg)). index (Extensions cfg) ref \<noteq> None"
    using assms(7,9) by (simp add: index_None_iff del: not_None_eq)
  then have exts: "checkRefs UnknownExtensionReference (Extensions cfg)
      (Service_Extensions (Service cfg)) = Success"
    by (simp only: checkRefs_Success_iff)
  have "validateService cfg = Failure MissingServicePipelines"
    by (simp add: validateService_def tel exts assms(3))
  with comps assms(1,2) show ?thesis by (simp add: Validate_def)
qed

theorem empty_Pipelines_MissingPipelines_witness:
  "Receivers no_pipelines \<noteq> [] \<and> Exporters no_pipelines \<noteq> [] \<and>
   Pipelines (Service no_pipelines) = [] \<and>
   Validate no_pipelines = Failure MissingServicePipelines"
proof -
  have h: "Receivers no_pipelines \<noteq> []" "Exporters no_pipelines \<noteq> []"
      "Pipelines (Service no_pipelines) = []"
      "\<forall>v \<in> snd ` set (Receivers no_pipelines). returns_nil v"
      "\<forall>v \<in> snd ` set (Exporters no_pipelines). returns_nil v"
      "\<forall>v \<in> snd ` set (Processors no_pipelines). returns_nil v"
      "\<forall>v \<in> snd ` set (Extensions no_pipelines). returns_nil v"
      "Encoding (Logs (Telemetry (Service no_pipelines))) = ''json'' \<or>
       Encoding (Logs (Telemetry (Service no_pipelines))) = ''console''"
      "\<forall>ref \<in> set (Service_Extensions (Service no_pipelines)).
         resolves_in (Extensions no_pipelines) ref"
    by (simp_all add: no_pipelines_def valid_component_def returns_nil_def telemetry_def
          resolves_in_def)
  from h(1-3) empty_Pipelines_MissingPipelines [OF h] show ?thesis by simp
qed

text \<open>
  Claim C5, as stated, fails: a pipeline that contains two receiver IDs absent from the
  Receivers registry is reported with the first of them only, so the second is a receiver
  ID of the pipeline, absent from the registry, that \<open>Validate\<close> does not name; and with
  an invalid telemetry encoding the same pipeline is not reported at all.
\<close>

theorem unknown_receiver_counterexample:
  "Pipelines (Service two_unknown_receivers) =
     [(''p1'', Some (pipeline ''p1'' [''rX'', ''rY''] [''bX''] [''eX'']))] \<and>
   \<not> resolves_in (Receivers two_unknown_receivers) ''rY'' \<and>
   Validate two_unknown_receivers = Failure (UnknownReceiverReference ''p1'' ''rX'') \<and>
   Validate two_unknown_receivers \<noteq> Failure (UnknownReceiverReference ''p1'' ''rY'') \<and>
   Validate (two_unknown_receivers
      \<lparr>Service := (Service two_unknown_receivers)\<lparr>Telemetry := telemetry ''yaml''\<rparr>\<rparr>) =
     Failure (InvalidTelemetryEncoding ''yaml'')"
  by (simp add: two_unknown_receivers_def Validate_def validateService_def
        validate_Telemetry_def validate_Logs_def telemetry_def valid_component_def
        validatePipeline_def pipeline_def index_def resolves_in_def)

text \<open>
  Claim C5, amended. Within each single pipeline the checks run in the order: receivers
  list non-empty, receiver references, processor references, exporters list non-empty,
  exporter references. When every check that precedes the pipelines passes and the
  pipelines visited before \<open>P\<close> are valid, \<open>Validate\<close> returns the error of the first of
  these checks that \<open>P\<close> fails, naming \<open>P\<close> and, for a reference check, the first ID of
  the list that is absent from its registry: an absent receiver ID is reported whatever
  the processor and exporter lists contain, an absent processor ID is reported once the
  receivers pass, whatever the exporter list contains, and the exporter errors are
  reported once the receivers and the processors pass.
\<close>

theorem pipeline_checks_in_order:
  assumes "Receivers cfg \<noteq> []" and "Exporters cfg \<noteq> []"
    and "\<forall>v \<in> snd ` set (Receivers cfg). returns_nil v"
    and "\<forall>v \<in> snd ` set (Exporters cfg). returns_nil v"
    and "\<forall>v \<in> snd ` set (Processors cfg). returns_nil v"
    and "\<forall>v \<in> snd ` set (Extensions cfg). returns_nil v"
    and "Encoding (Logs (Telemetry (Service cfg))) = ''json'' \<or>
         Encoding (Logs (Telemetry (Service cfg))) = ''console''"
    and "\<forall>ref \<in> set (Service_Extensions (Service cfg)). resolves_in (Extensions cfg) ref"
    and "Pipelines (Service cfg) = before @ (k, Some P) # after"
    and "\<forall>p \<in> snd ` set before. spec_pipeline_ok cfg p"
  shows
    "(Pipeline_Receivers P = [] \<longrightarrow>
        Validate cfg = Failure (EmptyPipelineReceivers (Name P))) \<and>
     (Pipeline_Receivers P = rs @ ref # rs' \<and>
      (\<forall>r \<in> set rs. resolves_in (Receivers cfg) r) \<and>
      \<not> resolves_in (Receivers cfg) ref \<longrightarrow>
        Validate cfg = Failure (UnknownReceiverReference (Name P) ref)) \<and>
     (Pipeline_Receivers P \<noteq> [] \<and>
      (\<forall>r \<in> set (Pipeline_Receivers P). resolves_in (Receivers cfg) r) \<and>
      Pipeline_Processors P = rs @ ref # rs' \<and>
      (\<forall>r \<in> set rs. resolves_in (Processors cfg) r) \<and>
      \<not> resolves_in (Processors cfg) ref \<longrightarrow>
        Validate cfg = Failure (UnknownProcessorReference (Name P) ref)) \<and>
     (Pipeline_Receivers P \<noteq> [] \<and>
      (\<forall>r \<in> set (Pipeline_Receivers P). resolves_in (Receivers cfg) r) \<and>
      (\<forall>r \<in> set (Pipeline_Processors P). resolves_in (Processors cfg) r) \<and>
      Pipeline_Exporters P = [] \<longrightarrow>
        Validate cfg = Failure (EmptyPipelineExporters (Name P))) \<and>
     (Pipeline_Receivers P \<noteq> [] \<and>
      (\<forall>r \<in> set (Pipeline_Receivers P). resolves_in (Receivers cfg) r) \<and>
      (\<forall>r \<in> set (Pipeline_Processors P). resolves_in (Processors cfg) r) \<and>
      Pipeline_Exporters P = rs @ ref # rs' \<and>
      (\<forall>r \<in> set rs. resolves_in (Exporters cfg) r) \<and>
      \<not> resolves_in (Exporters cfg) ref \<longrightarrow>
        Validate cfg = Failure (UnknownExporterReference (Name P) ref))"
proof -
  have comps: "validateComponents ''receiver'' (Receivers cfg) = Success"
      "validateComponents ''exporter'' (Exporters cfg) = Success"
      "validateComponents ''processor'' (Processors cfg) = Success"
      "validateComponents ''extension'' (Extensions cfg) = Success"
    using assms(3-6) by (simp_all only: validateComponents_Success_iff)
  have tel: "validate_Telemetry (Telemetry (Service cfg)) = Success"
    using assms(7) by (auto simp: validate_Telemetry_def validate_Logs_def)
  have "\<forall>ref \<in> set (Service_Extensions (Service cfg)). index (Extensions cfg) ref \<noteq> None"
    using assms(6,8) by (simp add: index_None_iff del: not_None_eq)
  then have exts: "checkRefs UnknownExtensionReference (Extensions cfg)
      (Service_Extensions (Service cfg)) = Success"
    by (simp only: checkRefs_Success_iff)
  have "\<forall>p \<in> snd ` set before. \<exists>pl. p = Some pl \<and> validatePipeline cfg pl = Success"
  proof
    fix p assume "p \<in> snd ` set before"
    with assms(10) have ok: "spec_pipeline_ok cfg p" by blast
    then obtain pl where p: "p = Some pl" by (cases p) (simp_all add: spec_pipeline_ok_def)
    with ok assms(3-5) have "validatePipeline cfg pl = Success"
      by (simp add: validatePipeline_spec)
    with p show "\<exists>pl. p = Some pl \<and> validatePipeline cfg pl = Success" by simp
  qed
  then have skip: "validatePipelines cfg (Pipelines (Service cfg)) =
      validatePipelines cfg ((k, Some P) # after)"
    unfolding assms(9) by (rule validatePipelines_append)
  have reach: "Validate cfg = Failure e" if "validatePipeline cfg P = Failure e" for e
  proof -
    from skip that have "validatePipelines cfg (Pipelines (Service cfg)) = Failure e"
      by simp
    then have "validateService cfg = Failure e"
      by (simp add: validateService_def tel exts assms(9))
    with comps assms(1,2) show ?thesis by (simp add: Validate_def)
  qed
  have ok: "checkRefs mk m refs = Success"
    if "\<forall>v \<in> snd ` set m. returns_nil v" "\<forall>r \<in> set refs. resolves_in m r" for mk m refs
    using that by (simp add: checkRefs_Success_iff index_None_iff del: not_None_eq)
  have first: "checkRefs mk m (rs @ ref # rs') = Failure (mk ref)"
    if "\<forall>v \<in> snd ` set m. returns_nil v" "\<forall>r \<in> set rs. resolves_in m r"
      "\<not> resolves_in m ref" for mk m
  proof (rule checkRefs_first)
    show "\<forall>r \<in> set rs. index m r \<noteq> None"
      using that(1,2) by (simp add: index_None_iff del: not_None_eq)
    show "index m ref = None"
      using that(1,3) by (simp add: index_None_iff)
  qed
  show ?thesis
  proof (intro conjI impI; (elim conjE)?)
    assume "Pipeline_Receivers P = []"
    then show "Validate cfg = Failure (EmptyPipelineReceivers (Name P))"
      by (intro reach) (simp add: validatePipeline_def)
  next
    assume "Pipeline_Receivers P = rs @ ref # rs'"
      "\<forall>r \<in> set rs. resolves_in (Receivers cfg) r" "\<not> resolves_in (Receivers cfg) ref"
    then show "Validate cfg = Failure (UnknownReceiverReference (Name P) ref)"
      by (intro reach) (simp add: validatePipeline_def first [OF assms(3)])
  next
    assume "Pipeline_Receivers P \<noteq> []"
      "\<forall>r \<in> set (Pipeline_Receivers P). resolves_in (Receivers cfg) r"
      "Pipeline_Processors P = rs @ ref # rs'"
      "\<forall>r \<in> set rs. resolves_in (Processors cfg) r" "\<not> resolves_in (Processors cfg) ref"
    then show "Validate cfg = Failure (UnknownProcessorReference (Name P) ref)"
      by (intro reach)
         (simp add: validatePipeline_def ok [OF assms(3)] first [OF assms(5)])
  next
    assume "Pipeline_Receivers P \<noteq> []"
      "\<forall>r \<in> set (Pipeline_Receivers P). resolves_in (Receivers cfg) r"
      "\<forall>r \<in> set (Pipeline_Processors P). resolves_in (Processors cfg) r"
      "Pipeline_Exporters P = []"
    then show "Validate cfg = Failure (EmptyPipelineExporters (Name P))"
      by (intro reach)
         (simp add: validatePipeline_def ok [OF assms(3)] ok [OF assms(5)])
  next
    assume "Pipeline_Receivers P \<noteq> []"
      "\<forall>r \<in> set (Pipeline_Receivers P). resolves_in (Receivers cfg) r"
      "\<forall>r \<in> set (Pipeline_Processors P). resolves_in (Processors cfg) r"
      "Pipeline_Exporters P = rs @ ref # rs'"
      "\<forall>r \<in> set rs. resolves_in (Exporters cfg) r" "\<not> resolves_in (Exporters cfg) ref"
    then show "Validate cfg = Failure (UnknownExporterReference (Name P) ref)"
      by (intro reach)
         (simp add: validatePipeline_def ok [OF assms(3)] ok [OF assms(5)]
            first [OF assms(4)])
  qed
qed

theorem pipeline_checks_in_order_witness:
  "Validate (reached_pipeline (pipeline ''p1'' [] [''bX''] [''eX''])) =
     Failure (EmptyPipelineReceivers ''p1'') \<and>
   Validate (reached_pipeline (pipeline ''p1'' [''r1'', ''rX'', ''rY''] [''bX''] [''eX''])) =
     Failure (UnknownReceiverReference ''p1'' ''rX'') \<and>
   Validate (reached_pipeline (pipeline ''p1'' [''r1''] [''b1'', ''bX''] [''eX''])) =
     Failure (UnknownProcessorReference ''p1'' ''bX'') \<and>
   Validate (reached_pipeline (pipeline ''p1'' [''r1''] [''b1'', ''bX''] [])) =
     Failure (UnknownProcessorReference ''p1'' ''bX'') \<and>
   Validate (reached_pipeline (pipeline ''p1'' [''r1''] [''b1''] [])) =
     Failure (EmptyPipelineExporters ''p1'') \<and>
   Validate (reached_pipeline (pipeline ''p1'' [''r1''] [''b1''] [''e1'', ''eX''])) =
     Failure (UnknownExporterReference ''p1'' ''eX'')"
proof -
  let ?before = "[(''p0'', Some (pipeline ''p0'' [''r1''] [] [''e1'']))]"
  have h: "Receivers (reached_pipeline P) \<noteq> []" "Exporters (reached_pipeline P) \<noteq> []"
      "\<forall>v \<in> snd ` set (Receivers (reached_pipeline P)). returns_nil v"
      "\<forall>v \<in> snd ` set (Exporters (reached_pipeline P)). returns_nil v"
      "\<forall>v \<in> snd ` set (Processors (reached_pipeline P)). returns_nil v"
      "\<forall>v \<in> snd ` set (Extensions (reached_pipeline P)). returns_nil v"
      "Encoding (Logs (Telemetry (Service (reached_pipeline P)))) = ''json'' \<or>
       Encoding (Logs (Telemetry (Service (reached_pipeline P)))) = ''console''"
      "\<forall>ref \<in> set (Service_Extensions (Service (reached_pipeline P))).
         resolves_in (Extensions (reached_pipeline P)) ref"
      "Pipelines (Service (reached_pipeline P)) = ?before @ (''p1'', Some P) # []"
      "\<forall>p \<in> snd ` set ?before. spec_pipeline_ok (reached_pipeline P) p"
    for P
    by (simp_all add: reached_pipeline_def valid_component_def returns_nil_def
          telemetry_def resolves_in_def pipeline_def spec_pipeline_ok_def)
  note t = pipeline_checks_in_order [OF h]
  have r: "resolves_in (Receivers (reached_pipeline P)) ''r1''"
      "\<not> resolves_in (Receivers (reached_pipeline P)) ''rX''"
      "resolves_in (Processors (reached_pipeline P)) ''b1''"
      "\<not> resolves_in (Processors (reached_pipeline P)) ''bX''"
      "resolves_in (Exporters (reached_pipeline P)) ''e1''"
      "\<not> resolves_in (Exporters (reached_pipeline P)) ''eX''"
    for P
    by (simp_all add: reached_pipeline_def resolves_in_def)
  from t [where P = "pipeline ''p1'' [] [''bX''] [''eX'']"]
    t [where P = "pipeline ''p1'' [''r1'', ''rX'', ''rY''] [''bX''] [''eX'']"
      and rs = "[''r1'']" and ref = "''rX''" and rs' = "[''rY'']"]
    t [where P = "pipeline ''p1'' [''r1''] [''b1'', ''bX''] [''eX'']"
      and rs = "[''b1'']" and ref = "''bX''" and rs' = "[]"]
    t [where P = "pipeline ''p1'' [''r1''] [''b1'', ''bX''] []"
      and rs = "[''b1'']" and ref = "''bX''" and rs' = "[]"]
    t [where P = "pipeline ''p1'' [''r1''] [''b1''] []"]
    t [where P = "pipeline ''p1'' [''r1''] [''b1''] [''e1'', ''eX'']"
      and rs = "[''e1'']" and ref = "''eX''" and rs' = "[]"]
  show ?thesis
    by (simp add: pipeline_def r)
qed

section \<open>The telemetry encoding\<close>

text \<open>
  Claim C6. The telemetry logs validation succeeds exactly when the encoding is \<open>json\<close>
  or \<open>console\<close>; for every other string, among them the empty string, \<open>text\<close> and \<open>JSON\<close>,
  it fails with the InvalidTelemetryEncoding error that carries the offending value.
\<close>

theorem Encoding_validation:
  "(validate_Logs srvTL = Success \<longleftrightarrow>
      Encoding srvTL = ''json'' \<or> Encoding srvTL = ''console'') \<and>
   (Encoding srvTL \<noteq> ''json'' \<and> Encoding srvTL \<noteq> ''console'' \<longrightarrow>
      validate_Logs srvTL = Failure (InvalidTelemetryEncoding (Encoding srvTL))) \<and>
   validate_Logs (srvTL\<lparr>Encoding := ''''\<rparr>) = Failure (InvalidTelemetryEncoding '''') \<and>
   validate_Logs (srvTL\<lparr>Encoding := ''text''\<rparr>) = Failure (InvalidTelemetryEncoding ''text'') \<and>
   validate_Logs (srvTL\<lparr>Encoding := ''JSON''\<rparr>) = Failure (InvalidTelemetryEncoding ''JSON'')"
  by (simp add: validate_Logs_def)

theorem Encoding_validation_witness:
  "Encoding (Logs (telemetry ''yaml'')) \<noteq> ''json'' \<and>
   Encoding (Logs (telemetry ''yaml'')) \<noteq> ''console'' \<and>
   validate_Logs (Logs (telemetry ''yaml'')) = Failure (InvalidTelemetryEncoding ''yaml'') \<and>
   validate_Logs (Logs (telemetry ''console'')) = Success"
proof -
  have e: "Encoding (Logs (telemetry ''yaml'')) = ''yaml''"
      "Encoding (Logs (telemetry ''console'')) = ''console''"
    by (simp_all add: telemetry_def)
  from Encoding_validation [of "Logs (telemetry ''yaml'')"]
    Encoding_validation [of "Logs (telemetry ''console'')"]
  show ?thesis by (simp add: e)
qed

section \<open>The reference checks\<close>

text \<open>
  Claim C9. In every cross-reference check a ComponentID whose key is present in the
  target registry but holds \<open>nil\<close> is treated as nonexistent: when it is the first
  reference of its list that does not resolve, the check of the service extensions, of a
  pipeline's receivers, of its processors and of its exporters fails with the
  corresponding unknown-reference error although the key exists.
\<close>

theorem nil_value_treated_as_nonexistent:
  "(validate_Telemetry (Telemetry (Service cfg)) = Success \<and>
    Service_Extensions (Service cfg) = pre @ ref # post \<and>
    (\<forall>r \<in> set pre. index (Extensions cfg) r \<noteq> None) \<and>
    map_of (Extensions cfg) ref = Some None \<longrightarrow>
      validateService cfg = Failure (UnknownExtensionReference ref)) \<and>
   (Pipeline_Receivers P = pre @ ref # post \<and>
    (\<forall>r \<in> set pre. index (Receivers cfg) r \<noteq> None) \<and>
    map_of (Receivers cfg) ref = Some None \<longrightarrow>
      validatePipeline cfg P = Failure (UnknownReceiverReference (Name P) ref)) \<and>
   (Pipeline_Receivers P \<noteq> [] \<and>
    (\<forall>r \<in> set (Pipeline_Receivers P). index (Receivers cfg) r \<noteq> None) \<and>
    Pipeline_Processors P = pre @ ref # post \<and>
    (\<forall>r \<in> set pre. index (Processors cfg) r \<noteq> None) \<and>
    map_of (Processors cfg) ref = Some None \<longrightarrow>
      validatePipeline cfg P = Failure (UnknownProcessorReference (Name P) ref)) \<and>
   (Pipeline_Receivers P \<noteq> [] \<and>
    (\<forall>r \<in> set (Pipeline_Receivers P). index (Receivers cfg) r \<noteq> None) \<and>
    (\<forall>r \<in> set (Pipeline_Processors P). index (Processors cfg) r \<noteq> None) \<and>
    Pipeline_Exporters P = pre @ ref # post \<and>
    (\<forall>r \<in> set pre. index (Exporters cfg) r \<noteq> None) \<and>
    map_of (Exporters cfg) ref = Some None \<longrightarrow>
      validatePipeline cfg P = Failure (UnknownExporterReference (Name P) ref))"
proof -
  have nil: "index m ref = None" if "map_of m ref = Some None" for m
    using that by (simp add: index_def)
  have first: "checkRefs mk m (pre @ ref # post) = Failure (mk ref)"
    if "\<forall>r \<in> set pre. index m r \<noteq> None" "map_of m ref = Some None" for mk m
    using that(1) nil [OF that(2)] by (rule checkRefs_first)
  have ok: "checkRefs mk m refs = Success" if "\<forall>r \<in> set refs. index m r \<noteq> None"
    for mk m refs
    using that by (simp only: checkRefs_Success_iff)
  show ?thesis
  proof (intro conjI impI; elim conjE)
    assume "validate_Telemetry (Telemetry (Service cfg)) = Success"
      "Service_Extensions (Service cfg) = pre @ ref # post"
      "\<forall>r \<in> set pre. index (Extensions cfg) r \<noteq> None"
      "map_of (Extensions cfg) ref = Some None"
    then show "validateService cfg = Failure (UnknownExtensionReference ref)"
      by (simp add: validateService_def first del: not_None_eq)
  next
    assume "Pipeline_Receivers P = pre @ ref # post"
      "\<forall>r \<in> set pre. index (Receivers cfg) r \<noteq> None"
      "map_of (Receivers cfg) ref = Some None"
    then show "validatePipeline cfg P = Failure (UnknownReceiverReference (Name P) ref)"
      by (simp add: validatePipeline_def first del: not_None_eq)
  next
    assume "Pipeline_Receivers P \<noteq> []"
      "\<forall>r \<in> set (Pipeline_Receivers P). index (Receivers cfg) r \<noteq> None"
      "Pipeline_Processors P = pre @ ref # post"
      "\<forall>r \<in> set pre. index (Processors cfg) r \<noteq> None"
      "map_of (Processors cfg) ref = Some None"
    then show "validatePipeline cfg P = Failure (UnknownProcessorReference (Name P) ref)"
      by (simp add: validatePipeline_def first ok del: not_None_eq)
  next
    assume "Pipeline_Receivers P \<noteq> []"
      "\<forall>r \<in> set (Pipeline_Receivers P). index (Receivers cfg) r \<noteq> None"
      "\<forall>r \<in> set (Pipeline_Processors P). index (Processors cfg) r \<noteq> None"
      "Pipeline_Exporters P = pre @ ref # post"
      "\<forall>r \<in> set pre. index (Exporters cfg) r \<noteq> None"
      "map_of (Exporters cfg) ref = Some None"
    then show "validatePipeline cfg P = Failure (UnknownExporterReference (Name P) ref)"
      by (simp add: validatePipeline_def first ok del: not_None_eq)
  qed
qed

theorem nil_value_treated_as_nonexistent_witness:
  "map_of (Extensions nil_entries) ''x1'' = Some None \<and>
   validateService nil_entries = Failure (UnknownExtensionReference ''x1'') \<and>
   map_of (Receivers nil_entries) ''r2'' = Some None \<and>
   validatePipeline nil_entries (pipeline ''p1'' [''r1'', ''r2''] [''b1''] [''e1'', ''e2'']) =
     Failure (UnknownReceiverReference ''p1'' ''r2'') \<and>
   map_of (Processors nil_entries) ''b1'' = Some None \<and>
   validatePipeline nil_entries (pipeline ''p1'' [''r1''] [''b1''] [''e1'', ''e2'']) =
     Failure (UnknownProcessorReference ''p1'' ''b1'') \<and>
   map_of (Exporters nil_entries) ''e2'' = Some None \<and>
   validatePipeline nil_entries (pipeline ''p1'' [''r1''] [] [''e1'', ''e2'']) =
     Failure (UnknownExporterReference ''p1'' ''e2'')"
proof -
  have m: "map_of (Extensions nil_entries) ''x1'' = Some None"
      "map_of (Receivers nil_entries) ''r2'' = Some None"
      "map_of (Processors nil_entries) ''b1'' = Some None"
      "map_of (Exporters nil_entries) ''e2'' = Some None"
    by (simp_all add: nil_entries_def)
  have i: "index (Receivers nil_entries) ''r1'' \<noteq> None"
      "index (Exporters nil_entries) ''e1'' \<noteq> None"
    by (simp_all add: nil_entries_def index_def valid_component_def)
  have s: "validate_Telemetry (Telemetry (Service nil_entries)) = Success"
      "Service_Extensions (Service nil_entries) = [] @ ''x1'' # []"
    by (simp_all add: nil_entries_def validate_Telemetry_def validate_Logs_def telemetry_def)
  from m i s
    nil_value_treated_as_nonexistent [where cfg = nil_entries and pre = "[]"
      and ref = "''x1''" and post = "[]"]
    nil_value_treated_as_nonexistent [where cfg = nil_entries and pre = "[''r1'']"
      and ref = "''r2''" and post = "[]"
      and P = "pipeline ''p1'' [''r1'', ''r2''] [''b1''] [''e1'', ''e2'']"]
    nil_value_treated_as_nonexistent [where cfg = nil_entries and pre = "[]"
      and ref = "''b1''" and post = "[]"
      and P = "pipeline ''p1'' [''r1''] [''b1''] [''e1'', ''e2'']"]
    nil_value_treated_as_nonexistent [where cfg = nil_entries and pre = "[''e1'']"
      and ref = "''e2''" and post = "[]"
      and P = "pipeline ''p1'' [''r1''] [] [''e1'', ''e2'']"]
  show ?thesis
    by (simp add: pipeline_def del: not_None_eq)
qed

text \<open>
  Called from \<open>Validate\<close>, the reference checks never see such an entry: the loop that
  validates the components of the registry calls \<open>Validate\<close> on the \<open>nil\<close> value first.
\<close>

lemma Validate_nil_entries: "Validate nil_entries = NilPanic"
  by (simp add: nil_entries_def Validate_def valid_component_def)

text \<open>
  Claim C10, as stated, fails: a copy of an unresolved reference that is put in front of
  another unresolved reference changes the reference that the error names.
\<close>

theorem duplicate_reference_counterexample:
  "''xB'' \<in> set (Service_Extensions (Service dangling_extensions)) \<and>
   Validate dangling_extensions = Failure (UnknownExtensionReference ''xA'') \<and>
   Validate (with_Service_Extensions dangling_extensions
     (insert_copy 0 ''xB'' (Service_Extensions (Service dangling_extensions)))) =
     Failure (UnknownExtensionReference ''xB'')"
  by (simp add: dangling_extensions_def with_Service_Extensions_def insert_copy_def
        Validate_def validateService_def validate_Telemetry_def validate_Logs_def
        telemetry_def valid_component_def index_def)

text \<open>
  Claim C10, amended. With the order of the map loops held fixed, one more copy of a
  ComponentID that is already present in \<open>Service.Extensions\<close>, or in the receivers,
  processors or exporters list of a pipeline, never changes whether \<open>Validate\<close> succeeds:
  a duplicate causes no failure of its own. The result is unchanged altogether when the
  copy is put after an occurrence of the ID or when the ID resolves in its registry.
  Otherwise the result is unchanged, or the unknown-reference error of that list, which
  named another reference of the list, names the duplicated ID instead.
\<close>

theorem duplicate_reference_effect:
  "(x \<in> set (Service_Extensions (Service cfg)) \<longrightarrow>
      same_or_names_copy UnknownExtensionReference (Service_Extensions (Service cfg)) x
        (Validate cfg)
        (Validate (with_Service_Extensions cfg
           (insert_copy n x (Service_Extensions (Service cfg))))) \<and>
      (Validate (with_Service_Extensions cfg
           (insert_copy n x (Service_Extensions (Service cfg)))) = Success \<longleftrightarrow>
         Validate cfg = Success) \<and>
      (x \<in> set (take n (Service_Extensions (Service cfg))) \<or>
       index (Extensions cfg) x \<noteq> None \<longrightarrow>
         Validate (with_Service_Extensions cfg
           (insert_copy n x (Service_Extensions (Service cfg)))) = Validate cfg)) \<and>
   (Pipelines (Service cfg) = before @ (k, Some P) # after \<and>
    x \<in> set (Pipeline_Receivers P) \<longrightarrow>
      same_or_names_copy (UnknownReceiverReference (Name P)) (Pipeline_Receivers P) x
        (Validate cfg)
        (Validate (with_Pipelines cfg
           (before @ (k, Some (copy_in_Receivers n x P)) # after))) \<and>
      (Validate (with_Pipelines cfg
           (before @ (k, Some (copy_in_Receivers n x P)) # after)) = Success \<longleftrightarrow>
         Validate cfg = Success) \<and>
      (x \<in> set (take n (Pipeline_Receivers P)) \<or> index (Receivers cfg) x \<noteq> None \<longrightarrow>
         Validate (with_Pipelines cfg
           (before @ (k, Some (copy_in_Receivers n x P)) # after)) = Validate cfg)) \<and>
   (Pipelines (Service cfg) = before @ (k, Some P) # after \<and>
    x \<in> set (Pipeline_Processors P) \<longrightarrow>
      same_or_names_copy (UnknownProcessorReference (Name P)) (Pipeline_Processors P) x
        (Validate cfg)
        (Validate (with_Pipelines cfg
           (before @ (k, Some (copy_in_Processors n x P)) # after))) \<and>
      (Validate (with_Pipelines cfg
           (before @ (k, Some (copy_in_Processors n x P)) # after)) = Success \<longleftrightarrow>
         Validate cfg = Success) \<and>
      (x \<in> set (take n (Pipeline_Processors P)) \<or> index (Processors cfg) x \<noteq> None \<longrightarrow>
         Validate (with_Pipelines cfg
           (before @ (k, Some (copy_in_Processors n x P)) # after)) = Validate cfg)) \<and>
   (Pipelines (Service cfg) = before @ (k, Some P) # after \<and>
    x \<in> set (Pipeline_Exporters P) \<longrightarrow>
      same_or_names_copy (UnknownExporterReference (Name P)) (Pipeline_Exporters P) x
        (Validate cfg)
        (Validate (with_Pipelines cfg
           (before @ (k, Some (copy_in_Exporters n x P)) # after))) \<and>
      (Validate (with_Pipelines cfg
           (before @ (k, Some (copy_in_Exporters n x P)) # after)) = Success \<longleftrightarrow>
         Validate cfg = Success) \<and>
      (x \<in> set (take n (Pipeline_Exporters P)) \<or> index (Exporters cfg) x \<noteq> None \<longrightarrow>
         Validate (with_Pipelines cfg
           (before @ (k, Some (copy_in_Exporters n x P)) # after)) = Validate cfg))"
proof (intro conjI impI; (elim conjE)?)
  let ?xs = "Service_Extensions (Service cfg)"
  assume x: "x \<in> set ?xs"
  then show c: "same_or_names_copy UnknownExtensionReference ?xs x (Validate cfg)
      (Validate (with_Service_Extensions cfg (insert_copy n x ?xs)))"
    by (intro Validate_with_Service_Extensions_copy checkRefs_insert_copy_any)
  then show "Validate (with_Service_Extensions cfg (insert_copy n x ?xs)) = Success \<longleftrightarrow>
      Validate cfg = Success"
    by (rule same_or_names_copy_Success)
  assume "x \<in> set (take n ?xs) \<or> index (Extensions cfg) x \<noteq> None"
  then show "Validate (with_Service_Extensions cfg (insert_copy n x ?xs)) = Validate cfg"
    by (intro Validate_with_Service_Extensions) (simp only: checkRefs_insert_copy_same)
next
  assume p: "Pipelines (Service cfg) = before @ (k, Some P) # after"
    and x: "x \<in> set (Pipeline_Receivers P)"
  show c: "same_or_names_copy (UnknownReceiverReference (Name P))
      (Pipeline_Receivers P) x (Validate cfg)
      (Validate (with_Pipelines cfg (before @ (k, Some (copy_in_Receivers n x P)) # after)))"
    by (rule Validate_with_Pipelines_copy [OF p validatePipeline_copy_any(1) [OF x]])
  then show "Validate (with_Pipelines cfg
      (before @ (k, Some (copy_in_Receivers n x P)) # after)) = Success \<longleftrightarrow>
      Validate cfg = Success"
    by (rule same_or_names_copy_Success)
  assume a: "x \<in> set (take n (Pipeline_Receivers P)) \<or> index (Receivers cfg) x \<noteq> None"
  show "Validate (with_Pipelines cfg
      (before @ (k, Some (copy_in_Receivers n x P)) # after)) = Validate cfg"
    by (rule Validate_with_Pipelines [OF p validatePipeline_copy_same(1) [OF x a]])
next
  assume p: "Pipelines (Service cfg) = before @ (k, Some P) # after"
    and x: "x \<in> set (Pipeline_Processors P)"
  show c: "same_or_names_copy (UnknownProcessorReference (Name P))
      (Pipeline_Processors P) x (Validate cfg)
      (Validate (with_Pipelines cfg (before @ (k, Some (copy_in_Processors n x P)) # after)))"
    by (rule Validate_with_Pipelines_copy [OF p validatePipeline_copy_any(2) [OF x]])
  then show "Validate (with_Pipelines cfg
      (before @ (k, Some (copy_in_Processors n x P)) # after)) = Success \<longleftrightarrow>
      Validate cfg = Success"
    by (rule same_or_names_copy_Success)
  assume a: "x \<in> set (take n (Pipeline_Processors P)) \<or> index (Processors cfg) x \<noteq> None"
  show "Validate (with_Pipelines cfg
      (before @ (k, Some (copy_in_Processors n x P)) # after)) = Validate cfg"
    by (rule Validate_with_Pipelines [OF p validatePipeline_copy_same(2) [OF x a]])
next
  assume p: "Pipelines (Service cfg) = before @ (k, Some P) # after"
    and x: "x \<in> set (Pipeline_Exporters P)"
  show c: "same_or_names_copy (UnknownExporterReference (Name P))
      (Pipeline_Exporters P) x (Validate cfg)
      (Validate (with_Pipelines cfg (before @ (k, Some (copy_in_Exporters n x P)) # after)))"
    by (rule Validate_with_Pipelines_copy [OF p validatePipeline_copy_any(3) [OF x]])
  then show "Validate (with_Pipelines cfg
      (before @ (k, Some (copy_in_Exporters n x P)) # after)) = Success \<longleftrightarrow>
      Validate cfg = Success"
    by (rule same_or_names_copy_Success)
  assume a: "x \<in> set (take n (Pipeline_Exporters P)) \<or> index (Exporters cfg) x \<noteq> None"
  show "Validate (with_Pipelines cfg
      (before @ (k, Some (copy_in_Exporters n x P)) # after)) = Validate cfg"
    by (rule Validate_with_Pipelines [OF p validatePipeline_copy_same(3) [OF x a]])
qed

theorem duplicate_reference_effect_witness:
  "Validate (with_Service_Extensions full_config [''x1'', ''x1'']) = Validate full_config \<and>
   Validate (with_Pipelines full_config
     [(''p0'', Some (pipeline ''p0'' [''r1''] [] [''e1''])),
      (''p1'', Some (pipeline ''p1'' [''r1'', ''r1''] [''b1''] [''e1'']))]) = Validate full_config \<and>
   Validate (with_Pipelines full_config
     [(''p0'', Some (pipeline ''p0'' [''r1''] [] [''e1''])),
      (''p1'', Some (pipeline ''p1'' [''r1''] [''b1'', ''b1''] [''e1'']))]) = Validate full_config \<and>
   Validate (with_Pipelines full_config
     [(''p0'', Some (pipeline ''p0'' [''r1''] [] [''e1''])),
      (''p1'', Some (pipeline ''p1'' [''r1''] [''b1''] [''e1'', ''e1'']))]) = Validate full_config \<and>
   same_or_names_copy UnknownExtensionReference [''xA'', ''xB''] ''xB''
     (Validate dangling_extensions)
     (Validate (with_Service_Extensions dangling_extensions [''xB'', ''xA'', ''xB''])) \<and>
   Validate (with_Service_Extensions dangling_extensions [''xB'', ''xA'', ''xB'']) \<noteq> Success"
proof -
  let ?P = "pipeline ''p1'' [''r1''] [''b1''] [''e1'']"
  let ?before = "[(''p0'', Some (pipeline ''p0'' [''r1''] [] [''e1'']))]"
  have p: "Pipelines (Service full_config) = ?before @ (''p1'', Some ?P) # []"
    by (simp add: full_config_def)
  have e: "Service_Extensions (Service full_config) = [''x1'']"
      "Service_Extensions (Service dangling_extensions) = [''xA'', ''xB'']"
    by (simp_all add: full_config_def dangling_extensions_def)
  have f: "Pipeline_Receivers ?P = [''r1'']" "Pipeline_Processors ?P = [''b1'']"
      "Pipeline_Exporters ?P = [''e1'']"
    by (simp_all add: pipeline_def)
  have d: "Validate dangling_extensions \<noteq> Success"
    by (simp add: dangling_extensions_def Validate_def validateService_def
          validate_Telemetry_def validate_Logs_def telemetry_def valid_component_def
          index_def)
  from d
    duplicate_reference_effect [where cfg = full_config and n = 1 and x = "''x1''"]
    duplicate_reference_effect [where cfg = full_config and n = 1 and x = "''r1''"
      and before = ?before and k = "''p1''" and P = ?P and after = "[]"]
    duplicate_reference_effect [where cfg = full_config and n = 1 and x = "''b1''"
      and before = ?before and k = "''p1''" and P = ?P and after = "[]"]
    duplicate_reference_effect [where cfg = full_config and n = 1 and x = "''e1''"
      and before = ?before and k = "''p1''" and P = ?P and after = "[]"]
    duplicate_reference_effect [where cfg = dangling_extensions and n = 0 and x = "''xB''"]
  show ?thesis
    by (simp add: p e f insert_copy_def pipeline_def copy_in_Receivers_def
          copy_in_Processors_def copy_in_Exporters_def)
qed

end
